theory Spec2Isabelle
  imports Main
begin

section \<open>Python values of the sync server\<close>

text \<open>
  The values that \<^verbatim>\<open>json.load\<close> and \<^verbatim>\<open>json.loads\<close> produce: \<^verbatim>\<open>None\<close>, \<^verbatim>\<open>bool\<close>,
  \<^verbatim>\<open>int\<close> (unbounded), \<^verbatim>\<open>float\<close>, \<^verbatim>\<open>str\<close>, \<^verbatim>\<open>list\<close> and \<^verbatim>\<open>dict\<close> with string keys.
  A dict is an association list in insertion order, as Python keeps it; the keys of a
  Python dict are distinct, and on a list that repeats a key (which no dict is) a lookup
  takes the first entry. A finite float is the dyadic rational \<open>m * 2 ^ e\<close> (both zeros
  are \<open>Finite 0 e\<close>: they are equally false and equally truncated); the three special
  doubles are constructors of their own. A character is a code point below 256.
\<close>

datatype pyfloat = Finite int int | PosInf | NegInf | NaN

datatype json =
    JNull
  | JBool bool
  | JInt int
  | JFloat pyfloat
  | JStr string
  | JArr "json list"
  | JObj "(string \<times> json) list"

type_synonym pydict = "(string \<times> json) list"

datatype py_error = ValueError | TypeError | OverflowError | OSError

text \<open>\<^verbatim>\<open>d.get(k, default)\<close>, \<^verbatim>\<open>d[k] = v\<close> and \<^verbatim>\<open>d.setdefault(k, default)\<close>.\<close>

definition dict_get :: "pydict \<Rightarrow> string \<Rightarrow> json \<Rightarrow> json" where
  "dict_get d k dflt = (case map_of d k of None \<Rightarrow> dflt | Some v \<Rightarrow> v)"

fun dict_set :: "string \<Rightarrow> json \<Rightarrow> pydict \<Rightarrow> pydict" where
  "dict_set k v [] = [(k, v)]"
| "dict_set k v (p # ps) = (if fst p = k then (k, v) # ps else p # dict_set k v ps)"

definition dict_setdefault :: "string \<Rightarrow> json \<Rightarrow> pydict \<Rightarrow> pydict \<times> json" where
  "dict_setdefault k dflt d =
     (case map_of d k of None \<Rightarrow> (d @ [(k, dflt)], dflt) | Some v \<Rightarrow> (d, v))"

text \<open>Truth value of a Python object, as \<^verbatim>\<open>or\<close> and \<^verbatim>\<open>not\<close> test it.\<close>

fun float_truthy :: "pyfloat \<Rightarrow> bool" where
  "float_truthy (Finite m e) = (m \<noteq> 0)"
| "float_truthy PosInf = True"
| "float_truthy NegInf = True"
| "float_truthy NaN = True"

fun py_truthy :: "json \<Rightarrow> bool" where
  "py_truthy JNull = False"
| "py_truthy (JBool b) = b"
| "py_truthy (JInt n) = (n \<noteq> 0)"
| "py_truthy (JFloat f) = float_truthy f"
| "py_truthy (JStr s) = (s \<noteq> [])"
| "py_truthy (JArr xs) = (xs \<noteq> [])"
| "py_truthy (JObj d) = (d \<noteq> [])"

definition py_or :: "json \<Rightarrow> json \<Rightarrow> json" where
  "py_or a b = (if py_truthy a then a else b)"

subsection \<open>The builtin \<^verbatim>\<open>int\<close>\<close>

text \<open>
  \<^verbatim>\<open>int(s)\<close> for a string: surrounding whitespace is dropped, then an optional sign and
  decimal digits, with single underscores allowed between digits; anything else is a
  \<^verbatim>\<open>ValueError\<close>, and so is a literal of more than 4300 digits (CPython's default
  \<^verbatim>\<open>int_max_str_digits\<close>).
\<close>

definition is_space :: "char \<Rightarrow> bool" where
  "is_space c = (c \<in> set [CHR '' '', CHR 0x09, CHR 0x0A, CHR 0x0B, CHR 0x0C, CHR 0x0D,
                           CHR 0x85, CHR 0xA0])"

definition is_digit :: "char \<Rightarrow> bool" where
  "is_digit c = (c \<in> set ''0123456789'')"

definition digit_val :: "char \<Rightarrow> int" where
  "digit_val c = int (of_char c) - 48"

definition strip :: "string \<Rightarrow> string" where
  "strip s = rev (dropWhile is_space (rev (dropWhile is_space s)))"

fun digit_groups :: "string \<Rightarrow> bool" where
  "digit_groups [] = False"
| "digit_groups [c] = is_digit c"
| "digit_groups (c # d # cs) =
     (is_digit c \<and> (if d = CHR ''_'' then digit_groups cs else digit_groups (d # cs)))"

definition int_max_str_digits :: nat where
  "int_max_str_digits = 4300"

definition digits_value :: "string \<Rightarrow> int" where
  "digits_value ds = foldl (\<lambda>acc c. 10 * acc + digit_val c) 0 ds"

definition unsigned_int_of_str :: "string \<Rightarrow> py_error + int" where
  "unsigned_int_of_str body =
     (let ds = filter is_digit body in
      if digit_groups body \<and> length ds \<le> int_max_str_digits
      then Inr (digits_value ds) else Inl ValueError)"

definition py_int_of_str :: "string \<Rightarrow> py_error + int" where
  "py_int_of_str s =
     (case strip s of
        [] \<Rightarrow> Inl ValueError
      | c # cs \<Rightarrow>
          if c = CHR ''-'' then map_sum id uminus (unsigned_int_of_str cs)
          else if c = CHR ''+'' then unsigned_int_of_str cs
          else unsigned_int_of_str (c # cs))"

text \<open>\<^verbatim>\<open>int(x)\<close> of a float truncates towards zero; it raises on \<^verbatim>\<open>nan\<close> and the infinities.\<close>

fun float_int :: "pyfloat \<Rightarrow> py_error + int" where
  "float_int (Finite m e) =
     Inr (if 0 \<le> e then m * 2 ^ nat e else sgn m * (\<bar>m\<bar> div 2 ^ nat (- e)))"
| "float_int PosInf = Inl OverflowError"
| "float_int NegInf = Inl OverflowError"
| "float_int NaN = Inl ValueError"

fun py_int :: "json \<Rightarrow> py_error + int" where
  "py_int JNull = Inl TypeError"
| "py_int (JBool b) = Inr (if b then 1 else 0)"
| "py_int (JInt n) = Inr n"
| "py_int (JFloat f) = float_int f"
| "py_int (JStr s) = py_int_of_str s"
| "py_int (JArr xs) = Inl TypeError"
| "py_int (JObj d) = Inl TypeError"

subsection \<open>The builtin \<^verbatim>\<open>str\<close>\<close>

text \<open>
  \<^verbatim>\<open>str(x)\<close> is \<open>x\<close> itself for a string. For every other value Python prints
  \<^verbatim>\<open>repr(x)\<close>; the printed form (float formatting, quoting of nested strings) is the
  parameter \<open>rp\<close> of the model.
\<close>

definition py_str :: "(json \<Rightarrow> string) \<Rightarrow> json \<Rightarrow> string" where
  "py_str rp v = (case v of JStr s \<Rightarrow> s | _ \<Rightarrow> rp v)"

fun is_dict :: "json \<Rightarrow> bool" where
  "is_dict (JObj d) = True"
| "is_dict _ = False"

section \<open>The store\<close>

text \<open>
  \<^verbatim>\<open>_default_store\<close> and \<^verbatim>\<open>_normalize_store\<close>. The clock reading \<^verbatim>\<open>iso_now()\<close> is the
  parameter \<open>now\<close>. Normalisation raises where \<^verbatim>\<open>int\<close> does.
\<close>

definition default_store :: "string \<Rightarrow> pydict" where
  "default_store now =
     [(''rev'', JInt 0), (''updated_at'', JStr now), (''state'', JObj []), (''history'', JArr [])]"

definition normalize_store :: "(json \<Rightarrow> string) \<Rightarrow> string \<Rightarrow> json \<Rightarrow> py_error + pydict" where
  "normalize_store rp now raw =
     (case raw of
        JObj d \<Rightarrow>
          (case py_int (py_or (dict_get d ''rev'' (JInt 0)) (JInt 0)) of
             Inl e \<Rightarrow> Inl e
           | Inr rv \<Rightarrow>
               let u = py_str rp (dict_get d ''updated_at'' (JStr ''''));
                   updated_at = (if u = [] then now else u);
                   state = (case dict_get d ''state'' (JObj []) of
                              JObj st \<Rightarrow> JObj st | _ \<Rightarrow> JObj []);
                   history = (case dict_get d ''history'' (JArr []) of
                                JArr h \<Rightarrow> h | _ \<Rightarrow> [])
               in Inr [(''rev'', JInt rv), (''updated_at'', JStr updated_at),
                       (''state'', state), (''history'', JArr (take 200 history))])
      | _ \<Rightarrow> Inr (default_store now))"

section \<open>The backing file\<close>

text \<open>
  The file at \<^verbatim>\<open>STORE_PATH\<close> and its temporary sibling. A file either holds a JSON value
  or is \<open>Corrupt\<close> (unreadable, or not JSON: \<^verbatim>\<open>open\<close> or \<^verbatim>\<open>json.load\<close> raise on it).
  Dumping a value and loading it again gives the value back, so a file is modelled by
  the value it holds.
\<close>

datatype file_content = Corrupt | Json json

record files =
  store_file :: "file_content option"
  tmp_file :: "file_content option"

text \<open>\<^verbatim>\<open>_read_store\<close>: every exception, also one of \<^verbatim>\<open>_normalize_store\<close>, gives the default store.\<close>

definition read_store :: "(json \<Rightarrow> string) \<Rightarrow> string \<Rightarrow> files \<Rightarrow> pydict" where
  "read_store rp now fs =
     (case store_file fs of
        None \<Rightarrow> default_store now
      | Some Corrupt \<Rightarrow> default_store now
      | Some (Json raw) \<Rightarrow>
          (case normalize_store rp now raw of
             Inl e \<Rightarrow> default_store now
           | Inr s \<Rightarrow> s))"

text \<open>
  \<^verbatim>\<open>json.dump\<close> prints every \<^verbatim>\<open>int\<close> of the store with the conversion of \<^verbatim>\<open>int\<close> to \<^verbatim>\<open>str\<close>,
  which raises \<^verbatim>\<open>ValueError\<close> on more than 4300 digits, the limit of \<^verbatim>\<open>int(s)\<close>. Every
  other value of the model can be printed: \<^verbatim>\<open>nan\<close> and the infinities are allowed by
  default, and a string of code points below 256 always encodes as UTF-8.
\<close>

definition int_printable :: "int \<Rightarrow> bool" where
  "int_printable n = (\<bar>n\<bar> < 10 ^ int_max_str_digits)"

fun json_printable :: "json \<Rightarrow> bool" where
  "json_printable (JInt n) = int_printable n"
| "json_printable (JArr xs) = list_all json_printable xs"
| "json_printable (JObj d) = list_all (\<lambda>kv. json_printable (snd kv)) d"
| "json_printable _ = True"

text \<open>
  \<^verbatim>\<open>_write_store\<close>: open the temporary file, dump, rename over the store file. The
  parameter \<open>io\<close> is what the environment did in this call: which of the three steps
  raised an I/O error, if any (\<open>DumpFails\<close>: while writing or closing the temporary file;
  \<open>ReplaceFails\<close>: the dump was written and the rename raised). With no I/O error the
  call still fails when the store cannot be printed: \<^verbatim>\<open>json.dump\<close> raises \<^verbatim>\<open>ValueError\<close>
  and leaves a partial temporary file, and the rename is not reached.
\<close>

datatype io = IoOk | OpenFails | DumpFails | ReplaceFails

definition write_store :: "io \<Rightarrow> pydict \<Rightarrow> files \<Rightarrow> files \<times> (py_error + unit)" where
  "write_store io store fs =
     (case io of
        OpenFails \<Rightarrow> (fs, Inl OSError)
      | DumpFails \<Rightarrow> (fs\<lparr>tmp_file := Some Corrupt\<rparr>, Inl OSError)
      | ReplaceFails \<Rightarrow> (fs\<lparr>tmp_file := Some (Json (JObj store))\<rparr>, Inl OSError)
      | IoOk \<Rightarrow>
          if json_printable (JObj store)
          then (fs\<lparr>tmp_file := None, store_file := Some (Json (JObj store))\<rparr>, Inr ())
          else (fs\<lparr>tmp_file := Some Corrupt\<rparr>, Inl ValueError))"

section \<open>The request handler\<close>

text \<open>
  A request: the path of its URL, its \<^verbatim>\<open>Content-Length\<close> header when it has one, and what
  \<^verbatim>\<open>json.loads(raw.decode("utf-8"))\<close> makes of the bytes read: a value, or an exception.
\<close>

datatype decoded = Undecodable | Decoded json

record request =
  req_path :: string
  req_content_length :: "string option"
  req_body :: decoded

type_synonym response = "nat \<times> pydict"

record server =
  STORE :: pydict
  disk :: files

definition read_json :: "request \<Rightarrow> pydict option" where
  "read_json req =
     (case py_int_of_str (case req_content_length req of None \<Rightarrow> ''0'' | Some h \<Rightarrow> h) of
        Inl e \<Rightarrow> None
      | Inr sz \<Rightarrow>
          if sz \<le> 0 \<or> sz > 25000000 then None
          else (case req_body req of
                  Undecodable \<Rightarrow> None
                | Decoded data \<Rightarrow> (case data of JObj d \<Rightarrow> Some d | _ \<Rightarrow> None)))"

definition not_found :: response where
  "not_found = (404, [(''ok'', JBool False), (''error'', JStr ''Not found'')])"

definition invalid_payload :: response where
  "invalid_payload =
     (400, [(''ok'', JBool False),
            (''error'', JStr (''Invalid payload: expected object with '' @
                             [CHR 0x27] @ ''state'' @ [CHR 0x27]))])"

definition do_OPTIONS :: response where
  "do_OPTIONS = (200, [(''ok'', JBool True)])"

definition do_GET :: "string \<Rightarrow> pydict \<Rightarrow> response" where
  "do_GET p store =
     (if p = ''/api/ping'' then
        (200, [(''ok'', JBool True), (''rev'', dict_get store ''rev'' (JInt 0)),
               (''updated_at'', dict_get store ''updated_at'' (JStr ''''))])
      else if p = ''/api/state'' then
        (200, [(''ok'', JBool True), (''rev'', dict_get store ''rev'' (JInt 0)),
               (''updated_at'', dict_get store ''updated_at'' (JStr '''')),
               (''state'', dict_get store ''state'' (JObj []))])
      else if p = ''/api/history'' then
        (200, [(''ok'', JBool True), (''history'', dict_get store ''history'' (JArr []))])
      else not_found)"

definition history_entry :: "json \<Rightarrow> string \<Rightarrow> string \<Rightarrow> string \<Rightarrow> json" where
  "history_entry rv now client source =
     JObj [(''rev'', rv), (''at'', JStr now), (''client'', JStr client),
           (''source'', JStr source)]"

text \<open>
  \<^verbatim>\<open>do_POST\<close>. The result is the server after the call and either the response sent or
  the exception that left the handler. The statements under \<^verbatim>\<open>LOCK\<close> mutate \<^verbatim>\<open>STORE\<close> one
  after the other, so an exception leaves the mutations made before it in place.
  \<^verbatim>\<open>STORE["rev"]\<close> is read back right after it was stored: \<open>rv\<close> below.
\<close>

definition do_POST ::
  "(json \<Rightarrow> string) \<Rightarrow> string \<Rightarrow> io \<Rightarrow> request \<Rightarrow> server \<Rightarrow> server \<times> (py_error + response)" where
  "do_POST rp now io req srv =
     (if req_path req \<noteq> ''/api/state'' then (srv, Inr not_found)
      else
        (case read_json req of
           None \<Rightarrow> (srv, Inr invalid_payload)
         | Some data \<Rightarrow>
             if data = [] \<or> \<not> is_dict (dict_get data ''state'' JNull)
             then (srv, Inr invalid_payload)
             else
               let client = take 120 (py_str rp (dict_get data ''client'' (JStr ''ANON'')));
                   source = take 120 (py_str rp (dict_get data ''source'' (JStr '''')));
                   s1 = dict_set ''state'' (dict_get data ''state'' JNull) (STORE srv)
               in (case py_int (dict_get s1 ''rev'' (JInt 0)) of
                     Inl e \<Rightarrow> (srv\<lparr>STORE := s1\<rparr>, Inl e)
                   | Inr r \<Rightarrow>
                       let rv = JInt (r + 1);
                           s2 = dict_set ''rev'' rv s1;
                           s3 = dict_set ''updated_at'' (JStr now) s2;
                           (s4, h) = dict_setdefault ''history'' (JArr []) s3;
                           hist = (case h of JArr xs \<Rightarrow> xs | _ \<Rightarrow> []);
                           hist1 = history_entry rv now client source # hist;
                           hist2 = (if length hist1 > 200 then take 200 hist1 else hist1);
                           s5 = dict_set ''history'' (JArr hist2) s4;
                           (fs, w) = write_store io s5 (disk srv)
                       in (case w of
                             Inl e \<Rightarrow> (\<lparr>STORE = s5, disk = fs\<rparr>, Inl e)
                           | Inr u \<Rightarrow>
                               (\<lparr>STORE = s5, disk = fs\<rparr>,
                                Inr (200, [(''ok'', JBool True), (''rev'', rv),
                                           (''updated_at'', JStr now)]))))))"

section \<open>The server\<close>

text \<open>
  \<^verbatim>\<open>STORE = _read_store()\<close> at start, then requests handled one at a time: \<^verbatim>\<open>LOCK\<close> is
  held around every access to \<^verbatim>\<open>STORE\<close>. An exception ends the request, not the server.
\<close>

datatype event = Get string | Options | Post string io request

definition boot :: "(json \<Rightarrow> string) \<Rightarrow> string \<Rightarrow> files \<Rightarrow> server" where
  "boot rp now fs = \<lparr>STORE = read_store rp now fs, disk = fs\<rparr>"

fun handle :: "(json \<Rightarrow> string) \<Rightarrow> event \<Rightarrow> server \<Rightarrow> server \<times> (py_error + response)" where
  "handle rp (Get p) srv = (srv, Inr (do_GET p (STORE srv)))"
| "handle rp Options srv = (srv, Inr do_OPTIONS)"
| "handle rp (Post now io req) srv = do_POST rp now io req srv"

fun run :: "(json \<Rightarrow> string) \<Rightarrow> event list \<Rightarrow> server \<Rightarrow> server" where
  "run rp [] srv = srv"
| "run rp (ev # evs) srv = run rp evs (fst (handle rp ev srv))"

section \<open>Observations and properties of the store\<close>

text \<open>What the handlers read: \<^verbatim>\<open>STORE.get("rev", 0)\<close> and \<^verbatim>\<open>STORE.get("history", [])\<close>.\<close>

definition store_rev :: "pydict \<Rightarrow> json" where
  "store_rev s = dict_get s ''rev'' (JInt 0)"

definition store_history :: "pydict \<Rightarrow> json list" where
  "store_history s = (case dict_get s ''history'' (JArr []) of JArr h \<Rightarrow> h | _ \<Rightarrow> [])"

definition canonical_keys :: "string list" where
  "canonical_keys = [''rev'', ''updated_at'', ''state'', ''history'']"

text \<open>The dict that \<^verbatim>\<open>_normalize_store\<close> builds, by its four values.\<close>

definition snapshot :: "int \<Rightarrow> string \<Rightarrow> pydict \<Rightarrow> json list \<Rightarrow> pydict" where
  "snapshot r u st h =
     [(''rev'', JInt r), (''updated_at'', JStr u), (''state'', JObj st), (''history'', JArr h)]"

text \<open>
  A well-formed snapshot, in the words of the specification: a mapping with the four
  fields, an integer revision, a non-empty timestamp string, a mapping as document and
  a list of at most 200 entries as history. The order of the keys is free, as in a
  Python dict.
\<close>

definition well_formed :: "pydict \<Rightarrow> bool" where
  "well_formed s =
     (distinct (map fst s) \<and> set (map fst s) = set canonical_keys \<and>
      (case map_of s ''rev'' of Some (JInt r) \<Rightarrow> True | _ \<Rightarrow> False) \<and>
      (case map_of s ''updated_at'' of Some (JStr u) \<Rightarrow> u \<noteq> [] | _ \<Rightarrow> False) \<and>
      (case map_of s ''state'' of Some (JObj d) \<Rightarrow> True | _ \<Rightarrow> False) \<and>
      (case map_of s ''history'' of Some (JArr h) \<Rightarrow> length h \<le> 200 | _ \<Rightarrow> False))"

text \<open>\<^verbatim>\<open>history[0]["rev"] == STORE["rev"]\<close>, for a non-empty history.\<close>

definition head_matches :: "pydict \<Rightarrow> bool" where
  "head_matches s =
     (case store_history s of
        [] \<Rightarrow> True
      | e # es \<Rightarrow> (case e of JObj d \<Rightarrow> map_of d ''rev'' = Some (store_rev s) | _ \<Rightarrow> False))"

text \<open>
  A request that passes the checks of \<^verbatim>\<open>do_POST\<close> and reaches the store; the values the
  handler takes from its payload.
\<close>

definition accepted :: "request \<Rightarrow> bool" where
  "accepted req =
     (req_path req = ''/api/state'' \<and>
      (case read_json req of
         None \<Rightarrow> False
       | Some data \<Rightarrow> data \<noteq> [] \<and> is_dict (dict_get data ''state'' JNull)))"

definition payload :: "request \<Rightarrow> pydict" where
  "payload req = (case read_json req of None \<Rightarrow> [] | Some data \<Rightarrow> data)"

definition client_of :: "(json \<Rightarrow> string) \<Rightarrow> request \<Rightarrow> string" where
  "client_of rp req = take 120 (py_str rp (dict_get (payload req) ''client'' (JStr ''ANON'')))"

definition source_of :: "(json \<Rightarrow> string) \<Rightarrow> request \<Rightarrow> string" where
  "source_of rp req = take 120 (py_str rp (dict_get (payload req) ''source'' (JStr '''')))"

definition state_of :: "request \<Rightarrow> pydict" where
  "state_of req = (case dict_get (payload req) ''state'' JNull of JObj st \<Rightarrow> st | _ \<Rightarrow> [])"

text \<open>
  An event that is an accepted upsert; an upsert that succeeds in a given state (it is
  accepted and the handler answers, which for an accepted request is the 200 response);
  the number of upserts that succeed along a run.
\<close>

fun upsert_event :: "event \<Rightarrow> bool" where
  "upsert_event (Post now io req) = accepted req"
| "upsert_event _ = False"

fun upsert_succeeds :: "(json \<Rightarrow> string) \<Rightarrow> event \<Rightarrow> server \<Rightarrow> bool" where
  "upsert_succeeds rp (Post now io req) srv =
     (accepted req \<and>
      (case snd (do_POST rp now io req srv) of Inl e \<Rightarrow> False | Inr resp \<Rightarrow> True))"
| "upsert_succeeds rp _ srv = False"

fun successes :: "(json \<Rightarrow> string) \<Rightarrow> event list \<Rightarrow> server \<Rightarrow> nat" where
  "successes rp [] srv = 0"
| "successes rp (ev # evs) srv =
     (if upsert_succeeds rp ev srv then 1 else 0) + successes rp evs (fst (handle rp ev srv))"

text \<open>
  For the examples: a machine with no backing file, and the printed form of \<^verbatim>\<open>None\<close>,
  the only value an example ever prints.
\<close>

definition no_files :: files where
  "no_files = \<lparr>store_file = None, tmp_file = None\<rparr>"

definition repr_none :: "json \<Rightarrow> string" where
  "repr_none v = ''None''"

text \<open>Example requests: the upsert of the specification's example, and rejected ones.\<close>

definition upsert_a1 :: request where
  "upsert_a1 =
     \<lparr>req_path = ''/api/state'', req_content_length = Some ''30'',
      req_body = Decoded (JObj [(''state'', JObj [(''a'', JInt 1)]), (''client'', JStr ''X'')])\<rparr>"

definition post_list_state :: request where
  "post_list_state =
     \<lparr>req_path = ''/api/state'', req_content_length = Some ''13'',
      req_body = Decoded (JObj [(''state'', JArr [JInt 1])])\<rparr>"

definition post_array_body :: request where
  "post_array_body =
     \<lparr>req_path = ''/api/state'', req_content_length = Some ''5'',
      req_body = Decoded (JArr [JInt 1, JInt 2])\<rparr>"

definition get_state :: event where
  "get_state = Get ''/api/state''"

text \<open>Example backing files and values: a file whose newest history entry is older than
  its revision, one with a full history, a value with a field the store does not have,
  and values whose revision is not a number, the first of them with a document.\<close>

definition stale_history_file :: files where
  "stale_history_file =
     \<lparr>store_file = Some (Json (JObj [(''rev'', JInt 5),
                                     (''history'', JArr [JObj [(''rev'', JInt 3)]])])),
      tmp_file = None\<rparr>"

definition full_history_file :: files where
  "full_history_file =
     \<lparr>store_file = Some (Json (JObj [(''rev'', JInt 200),
                                     (''history'', JArr (replicate 200 JNull))])),
      tmp_file = None\<rparr>"

definition extra_field_value :: json where
  "extra_field_value = JObj [(''rev'', JInt 2), (''owner'', JStr ''cpe''), (''state'', JObj [])]"

definition bad_rev_value :: json where
  "bad_rev_value = JObj [(''rev'', JStr ''abc''), (''state'', JObj [(''a'', JInt 1)])]"

definition list_rev_value :: json where
  "list_rev_value = JObj [(''rev'', JArr [JInt 1])]"

definition bad_rev_file :: files where
  "bad_rev_file = \<lparr>store_file = Some (Json bad_rev_value), tmp_file = None\<rparr>"

definition reordered_snapshot :: pydict where
  "reordered_snapshot =
     [(''state'', JObj [(''a'', JInt 1)]), (''rev'', JInt 3),
      (''history'', JArr [JObj [(''rev'', JInt 3)]]), (''updated_at'', JStr ''t3'')]"

text \<open>The shape every store of a running server has (an invariant of the handlers).\<close>

definition shaped :: "server \<Rightarrow> bool" where
  "shaped srv = (\<exists>r u st h. STORE srv = snapshot r u st h \<and> length h \<le> 200)"



section \<open>Lemmas on dicts and snapshots\<close>

lemma snapshot_get:
  "dict_get [(''rev'', a), (''updated_at'', b), (''state'', c), (''history'', d)] ''rev'' x = a"
  "dict_get [(''rev'', a), (''updated_at'', b), (''state'', c), (''history'', d)] ''updated_at'' x = b"
  "dict_get [(''rev'', a), (''updated_at'', b), (''state'', c), (''history'', d)] ''state'' x = c"
  "dict_get [(''rev'', a), (''updated_at'', b), (''state'', c), (''history'', d)] ''history'' x = d"
  by (simp_all add: dict_get_def)

lemma snapshot_set:
  "dict_set ''rev'' v [(''rev'', a), (''updated_at'', b), (''state'', c), (''history'', d)]
     = [(''rev'', v), (''updated_at'', b), (''state'', c), (''history'', d)]"
  "dict_set ''updated_at'' v [(''rev'', a), (''updated_at'', b), (''state'', c), (''history'', d)]
     = [(''rev'', a), (''updated_at'', v), (''state'', c), (''history'', d)]"
  "dict_set ''state'' v [(''rev'', a), (''updated_at'', b), (''state'', c), (''history'', d)]
     = [(''rev'', a), (''updated_at'', b), (''state'', v), (''history'', d)]"
  "dict_set ''history'' v [(''rev'', a), (''updated_at'', b), (''state'', c), (''history'', d)]
     = [(''rev'', a), (''updated_at'', b), (''state'', c), (''history'', v)]"
  by simp_all

lemma snapshot_setdefault:
  "dict_setdefault ''history'' v [(''rev'', a), (''updated_at'', b), (''state'', c), (''history'', d)]
     = ([(''rev'', a), (''updated_at'', b), (''state'', c), (''history'', d)], d)"
  by (simp add: dict_setdefault_def)

lemma store_rev_snapshot: "store_rev (snapshot r u st h) = JInt r"
  by (simp add: store_rev_def snapshot_def snapshot_get)

lemma store_history_snapshot: "store_history (snapshot r u st h) = h"
  by (simp add: store_history_def snapshot_def snapshot_get)

lemma keys_snapshot: "map fst (snapshot r u st h) = canonical_keys"
  by (simp add: snapshot_def canonical_keys_def)

lemma default_store_snapshot: "default_store now = snapshot 0 now [] []"
  by (simp add: default_store_def snapshot_def)

section \<open>Normalisation and loading\<close>

lemma normalize_store_shape:
  "normalize_store rp now raw = Inr s \<Longrightarrow> \<exists>r u st h. s = snapshot r u st h \<and> length h \<le> 200"
  unfolding normalize_store_def snapshot_def default_store_def
  by (auto simp: Let_def split: json.splits sum.splits)

lemma read_store_cases:
  "read_store rp now fs = default_store now \<or>
   (\<exists>raw. store_file fs = Some (Json raw) \<and> normalize_store rp now raw = Inr (read_store rp now fs))"
  by (auto simp: read_store_def split: option.splits file_content.splits sum.splits)

lemma read_store_shape: "\<exists>r u st h. read_store rp now fs = snapshot r u st h \<and> length h \<le> 200"
proof -
  consider "read_store rp now fs = default_store now"
    | raw where "normalize_store rp now raw = Inr (read_store rp now fs)"
    using read_store_cases [of rp now fs] by blast
  then show ?thesis
  proof cases
    case 1
    have "length ([] :: json list) \<le> 200" by simp
    with 1 show ?thesis unfolding default_store_snapshot by blast
  next
    case 2
    then show ?thesis by (rule normalize_store_shape)
  qed
qed

section \<open>The handlers on a snapshot\<close>

lemma server_eq: "srv = \<lparr>STORE = STORE srv, disk = disk srv\<rparr>"
  by simp

lemma do_POST_snapshot:
  assumes "accepted req"
  shows "do_POST rp now io req \<lparr>STORE = snapshot r u st h, disk = fs\<rparr> =
    (let s' = snapshot (r + 1) now (state_of req)
                (take 200 (history_entry (JInt (r + 1)) now (client_of rp req) (source_of rp req) # h))
     in (\<lparr>STORE = s', disk = fst (write_store io s' fs)\<rparr>,
         map_sum id (\<lambda>u. (200, [(''ok'', JBool True), (''rev'', JInt (r + 1)), (''updated_at'', JStr now)]))
           (snd (write_store io s' fs))))"
proof -
  from assms obtain data st' where p: "req_path req = ''/api/state''" and rj: "read_json req = Some data"
    and ne: "data \<noteq> []" and sd: "dict_get data ''state'' JNull = JObj st'"
    by (auto simp: accepted_def split: option.splits elim: is_dict.elims)
  have so: "state_of req = st'" by (simp add: state_of_def payload_def rj sd)
  have co: "take 120 (py_str rp (dict_get data ''client'' (JStr ''ANON''))) = client_of rp req"
    by (simp add: client_of_def payload_def rj)
  have sc: "take 120 (py_str rp (dict_get data ''source'' (JStr ''''))) = source_of rp req"
    by (simp add: source_of_def payload_def rj)
  show ?thesis
    unfolding do_POST_def snapshot_def
    by (simp add: p rj ne sd so co sc Let_def snapshot_get snapshot_set snapshot_setdefault
        del: dict_set.simps split: sum.splits prod.splits)
qed

lemma do_POST_not_accepted:
  "\<not> accepted req \<Longrightarrow>
   do_POST rp now io req srv =
     (srv, Inr (if req_path req \<noteq> ''/api/state'' then not_found else invalid_payload))"
  by (auto simp: accepted_def do_POST_def split: option.splits)

lemma handle_not_upsert: "\<not> upsert_event ev \<Longrightarrow> fst (handle rp ev srv) = srv"
  by (cases ev) (simp_all add: do_POST_not_accepted)

lemma write_store_fails:
  "io \<noteq> IoOk \<Longrightarrow> snd (write_store io s fs) = Inl OSError \<and>
     store_file (fst (write_store io s fs)) = store_file fs"
  by (cases io) (simp_all add: write_store_def)

lemma write_store_ok:
  "json_printable (JObj s) \<Longrightarrow>
   write_store IoOk s fs = (fs\<lparr>tmp_file := None, store_file := Some (Json (JObj s))\<rparr>, Inr ())"
  by (simp add: write_store_def)

lemma write_store_unprintable:
  "\<not> json_printable (JObj s) \<Longrightarrow>
   snd (write_store IoOk s fs) = Inl ValueError \<and>
     store_file (fst (write_store IoOk s fs)) = store_file fs"
  by (simp add: write_store_def)

lemma int_limit_not_printable: "\<not> int_printable (10 ^ int_max_str_digits)"
  by (simp add: int_printable_def)

lemma small_int_printable: "\<bar>n\<bar> < 10 \<Longrightarrow> int_printable n"
proof -
  assume a: "\<bar>n\<bar> < 10"
  have "0 < int_max_str_digits" by (simp add: int_max_str_digits_def)
  then have "(10::int) \<le> 10 ^ int_max_str_digits" by (intro self_le_power) simp_all
  with a show ?thesis unfolding int_printable_def by (rule less_le_trans)
qed

lemma shaped_boot: "shaped (boot rp t0 fs)"
  using read_store_shape [of rp t0 fs] by (simp add: shaped_def boot_def)

lemma upsert_step:
  assumes "accepted req" and "STORE srv = snapshot r u st h"
  shows "STORE (fst (do_POST rp now io req srv)) =
           snapshot (r + 1) now (state_of req)
             (take 200 (history_entry (JInt (r + 1)) now (client_of rp req) (source_of rp req) # h))"
proof -
  have "srv = \<lparr>STORE = snapshot r u st h, disk = disk srv\<rparr>"
    using assms(2) by simp
  then have "do_POST rp now io req srv = do_POST rp now io req \<lparr>STORE = snapshot r u st h, disk = disk srv\<rparr>"
    by simp
  then show ?thesis
    by (simp add: do_POST_snapshot [OF assms(1)] Let_def)
qed

lemma shaped_handle: "shaped srv \<Longrightarrow> shaped (fst (handle rp ev srv))"
proof (cases "upsert_event ev")
  case False
  assume "shaped srv"
  with False show ?thesis by (simp add: handle_not_upsert)
next
  case True
  assume "shaped srv"
  then obtain r u st h where s: "STORE srv = snapshot r u st h" by (auto simp: shaped_def)
  from True obtain now io req where ev: "ev = Post now io req" and acc: "accepted req"
    by (cases ev) auto
  show ?thesis
    unfolding shaped_def ev handle.simps upsert_step [OF acc s]
    by (intro exI conjI, rule refl) simp
qed

lemma shaped_run: "shaped srv \<Longrightarrow> shaped (run rp evs srv)"
  by (induction evs arbitrary: srv) (simp_all add: shaped_handle)

lemma shaped_reachable: "shaped (run rp evs (boot rp t0 fs))"
  by (rule shaped_run [OF shaped_boot])

section \<open>Evaluating the examples\<close>

lemmas int_of_str_eval = py_int_of_str_def strip_def is_space_def unsigned_int_of_str_def
  is_digit_def digits_value_def digit_val_def int_max_str_digits_def

lemma read_json_upsert_a1:
  "read_json upsert_a1 = Some [(''state'', JObj [(''a'', JInt 1)]), (''client'', JStr ''X'')]"
  by (simp add: read_json_def upsert_a1_def int_of_str_eval)

lemma accepted_upsert_a1: "accepted upsert_a1"
  by (simp add: accepted_def read_json_upsert_a1 dict_get_def) (simp add: upsert_a1_def)

lemma boot_no_files: "boot rp t0 no_files = \<lparr>STORE = snapshot 0 t0 [] [], disk = no_files\<rparr>"
  by (simp add: boot_def read_store_def no_files_def default_store_snapshot)

lemma do_POST_upsert_a1:
  "do_POST rp now io upsert_a1 \<lparr>STORE = snapshot r u st h, disk = fs\<rparr> =
    (let s' = snapshot (r + 1) now [(''a'', JInt 1)]
                (take 200 (history_entry (JInt (r + 1)) now ''X'' [] # h))
     in (\<lparr>STORE = s', disk = fst (write_store io s' fs)\<rparr>,
         map_sum id (\<lambda>u. (200, [(''ok'', JBool True), (''rev'', JInt (r + 1)), (''updated_at'', JStr now)]))
           (snd (write_store io s' fs))))"
proof -
  have "state_of upsert_a1 = [(''a'', JInt 1)]"
    by (simp add: state_of_def payload_def read_json_upsert_a1 dict_get_def)
  moreover have "client_of rp upsert_a1 = ''X''"
    by (simp add: client_of_def payload_def read_json_upsert_a1 dict_get_def py_str_def)
  moreover have "source_of rp upsert_a1 = []"
    by (simp add: source_of_def payload_def read_json_upsert_a1 dict_get_def py_str_def)
  ultimately show ?thesis
    using do_POST_snapshot [OF accepted_upsert_a1, of rp now io r u st h fs] by simp
qed

section \<open>Rejected requests\<close>

text \<open>
  Claim C7. An upsert request (a POST to \<^verbatim>\<open>/api/state\<close> whose body decodes to an object)
  whose \<^verbatim>\<open>state\<close> field is absent or is not an object is answered with the
  invalid-payload error (status 400), and the server is returned as it was: the store
  (revision, timestamp, document, history) and the files are unchanged.
\<close>

theorem upsert_non_object_state_rejected:
  assumes "req_path req = ''/api/state''" and "read_json req = Some data"
    and "\<not> is_dict (dict_get data ''state'' JNull)"
  shows "do_POST rp now io req srv = (srv, Inr invalid_payload)"
  using assms by (simp add: do_POST_def)

theorem upsert_non_object_state_rejected_witness:
  "do_POST repr_none ''t1'' IoOk post_list_state (boot repr_none ''t0'' no_files)
     = (boot repr_none ''t0'' no_files, Inr invalid_payload)"
proof -
  have p: "req_path post_list_state = ''/api/state''" by (simp add: post_list_state_def)
  have r: "read_json post_list_state = Some [(''state'', JArr [JInt 1])]"
    by (simp add: read_json_def post_list_state_def int_of_str_eval)
  have d: "\<not> is_dict (dict_get [(''state'', JArr [JInt 1])] ''state'' JNull)"
    by (simp add: dict_get_def)
  show ?thesis by (rule upsert_non_object_state_rejected [OF p r d])
qed

text \<open>
  Claim C9. A POST to \<^verbatim>\<open>/api/state\<close> whose body does not decode to an object at the top
  level (an array, a string, a number, null, or bytes that do not decode) makes
  \<^verbatim>\<open>_read_json\<close> return \<^verbatim>\<open>None\<close>, and the handler answers with the same invalid-payload
  error as for a wrong \<^verbatim>\<open>state\<close> field, the server unchanged.
\<close>

theorem non_object_body_rejected:
  assumes "req_path req = ''/api/state''" and "\<forall>d. req_body req \<noteq> Decoded (JObj d)"
  shows "read_json req = None \<and> do_POST rp now io req srv = (srv, Inr invalid_payload)"
proof -
  have "read_json req = None"
    using assms(2) by (auto simp: read_json_def split: sum.splits decoded.splits json.splits)
  then show ?thesis using assms(1) by (simp add: do_POST_def)
qed

theorem non_object_body_rejected_witness:
  "read_json post_array_body = None \<and>
   do_POST repr_none ''t1'' IoOk post_array_body (boot repr_none ''t0'' no_files)
     = (boot repr_none ''t0'' no_files, Inr invalid_payload)"
proof -
  have p: "req_path post_array_body = ''/api/state''" by (simp add: post_array_body_def)
  have b: "\<forall>d. req_body post_array_body \<noteq> Decoded (JObj d)" by (simp add: post_array_body_def)
  show ?thesis by (rule non_object_body_rejected [OF p b])
qed

section \<open>Persistence\<close>

text \<open>
  Claim C2. Whenever \<^verbatim>\<open>do_POST\<close> reports success (the response with status 200), the
  store file holds the in-memory store of that moment: the same revision, timestamp,
  document and history. This holds for every store and every request.
\<close>

theorem upsert_success_persisted:
  assumes "do_POST rp now io req srv = (srv', Inr (200, body))"
  shows "store_file (disk srv') = Some (Json (JObj (STORE srv')))"
  using assms unfolding do_POST_def not_found_def invalid_payload_def write_store_def
  by (auto simp: Let_def split: if_splits option.splits sum.splits prod.splits io.splits)

theorem upsert_success_persisted_witness:
  "store_file (disk (fst (do_POST repr_none ''t1'' IoOk upsert_a1 (boot repr_none ''t0'' no_files))))
     = Some (Json (JObj (STORE (fst (do_POST repr_none ''t1'' IoOk upsert_a1
                                      (boot repr_none ''t0'' no_files))))))"
proof -
  have p: "json_printable (JObj (snapshot 1 ''t1'' [(''a'', JInt 1)]
             [history_entry (JInt 1) ''t1'' ''X'' []]))"
    by (simp add: snapshot_def history_entry_def small_int_printable)
  obtain srv' where e: "do_POST repr_none ''t1'' IoOk upsert_a1 (boot repr_none ''t0'' no_files)
      = (srv', Inr (200, [(''ok'', JBool True), (''rev'', JInt 1), (''updated_at'', JStr ''t1'')]))"
    by (simp add: boot_no_files do_POST_upsert_a1 Let_def write_store_ok [OF p])
  show ?thesis using upsert_success_persisted [OF e] by (simp add: e)
qed

text \<open>
  Claim C1, as stated: a failing persistence step leaves the in-memory snapshot as it
  was before the upsert. It does not: on a fresh store, an accepted upsert whose rename
  fails raises \<^verbatim>\<open>OSError\<close> and leaves revision 1 in memory, where it was 0.
\<close>

theorem persist_failure_not_rolled_back_counterexample:
  "snd (do_POST repr_none ''t1'' ReplaceFails upsert_a1 (boot repr_none ''t0'' no_files)) = Inl OSError \<and>
   store_rev (STORE (boot repr_none ''t0'' no_files)) = JInt 0 \<and>
   store_rev (STORE (fst (do_POST repr_none ''t1'' ReplaceFails upsert_a1
                            (boot repr_none ''t0'' no_files)))) = JInt 1 \<and>
   STORE (fst (do_POST repr_none ''t1'' ReplaceFails upsert_a1 (boot repr_none ''t0'' no_files)))
     \<noteq> STORE (boot repr_none ''t0'' no_files)"
  by (simp add: boot_no_files do_POST_upsert_a1 Let_def write_store_def store_rev_snapshot)
     (simp add: snapshot_def)

text \<open>
  Claim C1, amended. In every state the server can reach, when the persistence step of
  an accepted upsert fails, the handler ends with \<^verbatim>\<open>OSError\<close> (no success response is
  sent) and the store file is left as it was; the in-memory store is not rolled back: it
  is the store a successful upsert would have left, with the revision one higher.
\<close>

theorem persist_failure_not_rolled_back:
  assumes "accepted req" and "io \<noteq> IoOk"
  shows "snd (do_POST rp now io req (run rp evs (boot rp t0 fs))) = Inl OSError \<and>
         store_file (disk (fst (do_POST rp now io req (run rp evs (boot rp t0 fs)))))
           = store_file (disk (run rp evs (boot rp t0 fs))) \<and>
         STORE (fst (do_POST rp now io req (run rp evs (boot rp t0 fs))))
           = STORE (fst (do_POST rp now IoOk req (run rp evs (boot rp t0 fs)))) \<and>
         (\<exists>r. store_rev (STORE (run rp evs (boot rp t0 fs))) = JInt r \<and>
              store_rev (STORE (fst (do_POST rp now io req (run rp evs (boot rp t0 fs)))))
                = JInt (r + 1))"
proof -
  define srv where "srv = run rp evs (boot rp t0 fs)"
  have "shaped srv" unfolding srv_def by (rule shaped_reachable)
  then obtain r u st h where s: "STORE srv = snapshot r u st h" by (auto simp: shaped_def)
  have eq: "srv = \<lparr>STORE = snapshot r u st h, disk = disk srv\<rparr>" using s by simp
  have post: "\<And>i. do_POST rp now i req srv
      = do_POST rp now i req \<lparr>STORE = snapshot r u st h, disk = disk srv\<rparr>"
    using eq by simp
  have 1: "snd (do_POST rp now io req srv) = Inl OSError"
    by (simp add: post do_POST_snapshot [OF assms(1)] Let_def write_store_fails [OF assms(2)])
  have 2: "store_file (disk (fst (do_POST rp now io req srv))) = store_file (disk srv)"
    by (simp add: post do_POST_snapshot [OF assms(1)] Let_def write_store_fails [OF assms(2)])
  have 3: "STORE (fst (do_POST rp now io req srv)) = STORE (fst (do_POST rp now IoOk req srv))"
    by (simp add: upsert_step [OF assms(1) s])
  have 4: "store_rev (STORE srv) = JInt r \<and>
           store_rev (STORE (fst (do_POST rp now io req srv))) = JInt (r + 1)"
    by (simp add: upsert_step [OF assms(1) s] s store_rev_snapshot)
  from 1 2 3 4 show ?thesis unfolding srv_def by blast
qed

theorem persist_failure_not_rolled_back_witness:
  "snd (do_POST repr_none ''t2'' OpenFails upsert_a1 (run repr_none [] (boot repr_none ''t0'' no_files)))
     = Inl OSError \<and>
   store_file (disk (fst (do_POST repr_none ''t2'' OpenFails upsert_a1
                            (run repr_none [] (boot repr_none ''t0'' no_files))))) = None \<and>
   store_rev (STORE (fst (do_POST repr_none ''t2'' OpenFails upsert_a1
                            (run repr_none [] (boot repr_none ''t0'' no_files))))) = JInt 1"
proof -
  have io: "OpenFails \<noteq> IoOk" by simp
  have b: "disk (boot repr_none ''t0'' no_files) = no_files"
          "store_rev (STORE (boot repr_none ''t0'' no_files)) = JInt 0"
    by (simp_all add: boot_no_files store_rev_snapshot)
  show ?thesis
    using persist_failure_not_rolled_back [OF accepted_upsert_a1 io, of repr_none "''t2''" "[]" "''t0''" no_files]
    by (auto simp: b) (simp add: no_files_def)
qed



section \<open>Revisions\<close>

lemma rev_after_handle:
  assumes "STORE srv = snapshot r u st h"
  shows "\<exists>u' st' h'. STORE (fst (handle rp ev srv))
           = snapshot (r + (if upsert_event ev then 1 else 0)) u' st' h'"
proof (cases "upsert_event ev")
  case False
  with assms show ?thesis by (simp add: handle_not_upsert) blast
next
  case True
  then obtain now io req where ev: "ev = Post now io req" and acc: "accepted req"
    by (cases ev) auto
  from True show ?thesis
    unfolding ev handle.simps upsert_step [OF acc assms] by simp blast
qed

lemma rev_after_run:
  assumes "STORE srv = snapshot r u st h"
  shows "\<exists>u' st' h'. STORE (run rp evs srv)
           = snapshot (r + int (length (filter upsert_event evs))) u' st' h'"
  using assms
proof (induction evs arbitrary: srv r u st h)
  case Nil
  then show ?case by simp blast
next
  case (Cons ev evs)
  from rev_after_handle [OF Cons.prems, of rp ev]
  obtain u' st' h' where
    s: "STORE (fst (handle rp ev srv)) = snapshot (r + (if upsert_event ev then 1 else 0)) u' st' h'"
    by blast
  from Cons.IH [OF s] show ?case
    by (cases "upsert_event ev") (simp_all add: algebra_simps)
qed

lemma upsert_succeeds_is_upsert: "upsert_succeeds rp ev srv \<Longrightarrow> upsert_event ev"
  by (cases ev) simp_all

lemma successes_le_upserts: "successes rp evs srv \<le> length (filter upsert_event evs)"
proof (induction evs arbitrary: srv)
  case Nil
  show ?case by simp
next
  case (Cons ev evs)
  from Cons.IH [of "fst (handle rp ev srv)"] upsert_succeeds_is_upsert [of rp ev srv]
  show ?case by auto
qed

lemma not_accepted_post_list_state: "\<not> accepted post_list_state"
  by (simp add: accepted_def read_json_def post_list_state_def int_of_str_eval dict_get_def)

text \<open>
  Claim C3, as stated: from a fresh store the revision equals the number of successful
  upserts, each successful upsert adds exactly 1 without gaps, and no other operation
  produces a revision. An accepted upsert whose persistence fails produces one: on a
  fresh store, after an upsert whose rename fails and a second upsert that succeeds, one
  upsert has succeeded and the revision is 2; the failed request made revision 1, and
  the successful one is told 2.
\<close>

theorem failed_upsert_consumes_revision_counterexample:
  "successes repr_none [Post ''t1'' ReplaceFails upsert_a1, Post ''t2'' IoOk upsert_a1]
     (boot repr_none ''t0'' no_files) = 1 \<and>
   store_rev (STORE (run repr_none [Post ''t1'' ReplaceFails upsert_a1]
                       (boot repr_none ''t0'' no_files))) = JInt 1 \<and>
   store_rev (STORE (run repr_none [Post ''t1'' ReplaceFails upsert_a1, Post ''t2'' IoOk upsert_a1]
                       (boot repr_none ''t0'' no_files))) = JInt 2 \<and>
   snd (handle repr_none (Post ''t2'' IoOk upsert_a1)
          (run repr_none [Post ''t1'' ReplaceFails upsert_a1] (boot repr_none ''t0'' no_files)))
     = Inr (200, [(''ok'', JBool True), (''rev'', JInt 2), (''updated_at'', JStr ''t2'')])"
proof -
  have p: "json_printable (JObj (snapshot 2 ''t2'' [(''a'', JInt 1)]
             [history_entry (JInt 2) ''t2'' ''X'' [], history_entry (JInt 1) ''t1'' ''X'' []]))"
    by (simp add: snapshot_def history_entry_def small_int_printable)
  show ?thesis
    by (simp add: boot_no_files do_POST_upsert_a1 Let_def accepted_upsert_a1 store_rev_snapshot
        write_store_fails write_store_ok [OF p])
qed

text \<open>
  Claim C3, amended. On a server started without a backing file (revision 0), after any
  sequence of requests the revision is the number of accepted upserts, whether their
  persistence succeeded or not; the upserts that succeeded are at most that many. So
  when every accepted upsert succeeded the revision is the number of successful
  upserts, and after \<open>N\<close> successful upserts and nothing else it is \<open>N\<close>. The next accepted
  upsert makes the revision one higher and, when it succeeds, reports that revision. A
  request that is not an accepted upsert (a GET, an OPTIONS, a rejected POST) leaves
  the server as it was.
\<close>

theorem revision_counts_accepted_upserts:
  "store_rev (STORE (run rp evs (boot rp t0 no_files)))
     = JInt (int (length (filter upsert_event evs))) \<and>
   successes rp evs (boot rp t0 no_files) \<le> length (filter upsert_event evs) \<and>
   (successes rp evs (boot rp t0 no_files) = length (filter upsert_event evs) \<longrightarrow>
      store_rev (STORE (run rp evs (boot rp t0 no_files)))
        = JInt (int (successes rp evs (boot rp t0 no_files)))) \<and>
   (successes rp evs (boot rp t0 no_files) = length evs \<longrightarrow>
      store_rev (STORE (run rp evs (boot rp t0 no_files))) = JInt (int (length evs))) \<and>
   (\<forall>now io req. accepted req \<longrightarrow>
      store_rev (STORE (fst (do_POST rp now io req (run rp evs (boot rp t0 no_files)))))
        = JInt (int (length (filter upsert_event evs)) + 1) \<and>
      (\<forall>resp. snd (do_POST rp now io req (run rp evs (boot rp t0 no_files))) = Inr resp \<longrightarrow>
         resp = (200, [(''ok'', JBool True),
                       (''rev'', JInt (int (length (filter upsert_event evs)) + 1)),
                       (''updated_at'', JStr now)]))) \<and>
   (\<forall>ev srv. \<not> upsert_event ev \<longrightarrow> fst (handle rp ev srv) = srv)"
proof -
  define srv where "srv = run rp evs (boot rp t0 no_files)"
  define n where "n = length (filter upsert_event evs)"
  have b: "STORE (boot rp t0 no_files) = snapshot 0 t0 [] []" by (simp add: boot_no_files)
  from rev_after_run [OF b, of rp evs] obtain u st h where
    s: "STORE srv = snapshot (int n) u st h"
    unfolding srv_def n_def by auto
  have 1: "store_rev (STORE srv) = JInt (int n)"
    by (simp add: s store_rev_snapshot)
  have 2: "successes rp evs (boot rp t0 no_files) \<le> n"
    unfolding n_def by (rule successes_le_upserts)
  have 3: "successes rp evs (boot rp t0 no_files) = n \<longrightarrow>
      store_rev (STORE srv) = JInt (int (successes rp evs (boot rp t0 no_files)))"
    by (simp add: 1)
  have "n \<le> length evs" unfolding n_def by simp
  with 2 have 4: "successes rp evs (boot rp t0 no_files) = length evs \<longrightarrow>
      store_rev (STORE srv) = JInt (int (length evs))"
    by (auto simp: 1)
  have 5: "store_rev (STORE (fst (do_POST rp now io req srv))) = JInt (int n + 1) \<and>
      (\<forall>resp. snd (do_POST rp now io req srv) = Inr resp \<longrightarrow>
         resp = (200, [(''ok'', JBool True), (''rev'', JInt (int n + 1)),
                       (''updated_at'', JStr now)]))" if acc: "accepted req" for now io req
  proof -
    have "srv = \<lparr>STORE = snapshot (int n) u st h, disk = disk srv\<rparr>"
      using s by simp
    then have e: "do_POST rp now io req srv
        = do_POST rp now io req \<lparr>STORE = snapshot (int n) u st h, disk = disk srv\<rparr>"
      by simp
    show ?thesis
      unfolding e do_POST_snapshot [OF acc] Let_def
      by (cases "snd (write_store io
             (snapshot (int n + 1) now (state_of req)
                (take 200 (history_entry (JInt (int n + 1)) now (client_of rp req)
                   (source_of rp req) # h))) (disk srv))")
         (simp_all add: store_rev_snapshot)
  qed
  have 6: "\<forall>ev srv. \<not> upsert_event ev \<longrightarrow> fst (handle rp ev srv) = srv"
    by (simp add: handle_not_upsert)
  from 1 2 3 4 5 6 show ?thesis unfolding srv_def n_def by blast
qed

theorem revision_counts_accepted_upserts_witness:
  "store_rev (STORE (run repr_none
       [Post ''t1'' IoOk upsert_a1, get_state, Post ''t2'' DumpFails upsert_a1,
        Post ''t3'' IoOk post_list_state, Post ''t4'' IoOk upsert_a1]
       (boot repr_none ''t0'' no_files))) = JInt 3"
  using revision_counts_accepted_upserts [of repr_none
       "[Post ''t1'' IoOk upsert_a1, get_state, Post ''t2'' DumpFails upsert_a1,
         Post ''t3'' IoOk post_list_state, Post ''t4'' IoOk upsert_a1]" "''t0''"]
  by (simp add: get_state_def accepted_upsert_a1 not_accepted_post_list_state)

section \<open>History\<close>

lemma head_matches_snapshot_Cons:
  "head_matches (snapshot r u st (history_entry (JInt r) now c s # h))"
  by (simp add: head_matches_def store_history_snapshot store_rev_snapshot history_entry_def)

lemma take_200_Cons: "take 200 (x # xs) = x # take 199 xs"
  by (simp add: take_Cons')

lemma head_matches_after_upsert:
  assumes "accepted req" and "shaped srv"
  shows "head_matches (STORE (fst (do_POST rp now io req srv)))"
proof -
  from assms(2) obtain r u st h where s: "STORE srv = snapshot r u st h"
    by (auto simp: shaped_def)
  show ?thesis
    unfolding upsert_step [OF assms(1) s] take_200_Cons
    by (rule head_matches_snapshot_Cons)
qed

lemma head_matches_handle:
  assumes "shaped srv" and "head_matches (STORE srv) \<or> upsert_event ev"
  shows "head_matches (STORE (fst (handle rp ev srv)))"
proof (cases "upsert_event ev")
  case True
  then obtain now io req where ev: "ev = Post now io req" and acc: "accepted req"
    by (cases ev) auto
  show ?thesis unfolding ev handle.simps by (rule head_matches_after_upsert [OF acc assms(1)])
next
  case False
  with assms(2) show ?thesis by (simp add: handle_not_upsert)
qed

lemma head_matches_run:
  assumes "shaped srv" and "head_matches (STORE srv) \<or> list_ex upsert_event evs"
  shows "head_matches (STORE (run rp evs srv))"
  using assms
proof (induction evs arbitrary: srv)
  case Nil
  then show ?case by simp
next
  case (Cons ev evs)
  have sh: "shaped (fst (handle rp ev srv))" by (rule shaped_handle [OF Cons.prems(1)])
  show ?case
  proof (cases "head_matches (STORE srv) \<or> upsert_event ev")
    case True
    have "head_matches (STORE (fst (handle rp ev srv)))"
      by (rule head_matches_handle [OF Cons.prems(1) True])
    then show ?thesis using Cons.IH [OF sh] by simp
  next
    case False
    with Cons.prems(2) have "list_ex upsert_event evs" by simp
    then show ?thesis using Cons.IH [OF sh] by simp
  qed
qed

text \<open>
  Claim C4. In every state the server can reach (after loading any backing file and
  after any sequence of requests) the history has at most 200 entries, and so has every
  store that \<^verbatim>\<open>_normalize_store\<close> returns. An accepted upsert puts its entry, which
  carries the new revision, at index 0 and keeps the first 200 entries, so the oldest
  ones leave at the tail and the entry at index 0 matches the current revision.
\<close>
theorem history_capped_newest_first:
  "length (store_history (STORE (run rp evs (boot rp t0 fs)))) \<le> 200 \<and>
   (\<forall>s. normalize_store rp now raw = Inr s \<longrightarrow> length (store_history s) \<le> 200) \<and>
   (accepted req \<longrightarrow>
      store_history (STORE (fst (do_POST rp now io req (run rp evs (boot rp t0 fs)))))
        = take 200
            (history_entry
               (store_rev (STORE (fst (do_POST rp now io req (run rp evs (boot rp t0 fs))))))
               now (client_of rp req) (source_of rp req)
             # store_history (STORE (run rp evs (boot rp t0 fs)))) \<and>
      head_matches (STORE (fst (do_POST rp now io req (run rp evs (boot rp t0 fs))))))"
proof -
  define srv where "srv = run rp evs (boot rp t0 fs)"
  have sh: "shaped srv" unfolding srv_def by (rule shaped_reachable)
  then obtain r u st h where s: "STORE srv = snapshot r u st h" and len: "length h \<le> 200"
    by (auto simp: shaped_def)
  have 1: "length (store_history (STORE srv)) \<le> 200"
    by (simp add: s store_history_snapshot len)
  have 2: "\<forall>s. normalize_store rp now raw = Inr s \<longrightarrow> length (store_history s) \<le> 200"
    using normalize_store_shape [of rp now raw] by (auto simp: store_history_snapshot)
  have 3: "store_history (STORE (fst (do_POST rp now io req srv)))
        = take 200 (history_entry (store_rev (STORE (fst (do_POST rp now io req srv))))
               now (client_of rp req) (source_of rp req) # store_history (STORE srv)) \<and>
      head_matches (STORE (fst (do_POST rp now io req srv)))" if acc: "accepted req"
    using head_matches_after_upsert [OF acc sh, of rp now io]
    by (simp add: upsert_step [OF acc s] s store_history_snapshot store_rev_snapshot)
  from 1 2 3 show ?thesis unfolding srv_def by blast
qed

lemma boot_full_history_file:
  "STORE (boot rp t0 full_history_file) = snapshot 200 t0 [] (replicate 200 JNull)"
  by (simp add: boot_def read_store_def full_history_file_def normalize_store_def dict_get_def
      py_or_def py_str_def snapshot_def)

theorem history_capped_newest_first_witness:
  "store_history (STORE (fst (do_POST repr_none ''t1'' IoOk upsert_a1
       (run repr_none [] (boot repr_none ''t0'' full_history_file)))))
     = history_entry (JInt 201) ''t1'' ''X'' [] # replicate 199 JNull"
proof -
  have c: "client_of repr_none upsert_a1 = ''X''"
    by (simp add: client_of_def payload_def read_json_upsert_a1 dict_get_def py_str_def)
  have so: "source_of repr_none upsert_a1 = []"
    by (simp add: source_of_def payload_def read_json_upsert_a1 dict_get_def py_str_def)
  have r: "store_rev (STORE (fst (do_POST repr_none ''t1'' IoOk upsert_a1
             (boot repr_none ''t0'' full_history_file)))) = JInt 201"
    by (simp add: upsert_step [OF accepted_upsert_a1 boot_full_history_file] store_rev_snapshot)
  show ?thesis
    using history_capped_newest_first [of repr_none "[]" "''t0''" full_history_file "''t1''" JNull
        upsert_a1 IoOk]
    by (simp add: accepted_upsert_a1 c so r boot_full_history_file store_history_snapshot take_200_Cons)
qed

text \<open>
  Claim C6, as stated: in every reachable state with a non-empty history, the revision
  of \<^verbatim>\<open>history[0]\<close> is the current revision. Loading does not establish it: a backing
  file with revision 5 and a newest history entry of revision 3 is loaded as it is, and
  a fetch leaves it so.
\<close>
theorem loaded_history_head_mismatch_counterexample:
  "store_rev (STORE (boot repr_none ''t0'' stale_history_file)) = JInt 5 \<and>
   store_history (STORE (boot repr_none ''t0'' stale_history_file)) = [JObj [(''rev'', JInt 3)]] \<and>
   \<not> head_matches (STORE (run repr_none [get_state] (boot repr_none ''t0'' stale_history_file)))"
proof -
  have b: "STORE (boot repr_none ''t0'' stale_history_file)
             = snapshot 5 ''t0'' [] [JObj [(''rev'', JInt 3)]]"
    by (simp add: boot_def read_store_def stale_history_file_def normalize_store_def dict_get_def
        py_or_def py_str_def snapshot_def)
  show ?thesis
    by (simp add: b get_state_def store_rev_snapshot store_history_snapshot head_matches_def)
qed

text \<open>
  Claim C6, amended. In a state reached from a loaded snapshot whose \<^verbatim>\<open>history[0]\<close>
  matches its revision (or whose history is empty), or reached through at least one
  accepted upsert, the history is empty or the revision of \<^verbatim>\<open>history[0]\<close> is the current
  revision. \<^verbatim>\<open>_normalize_store\<close> itself does not check the entries of the history.
\<close>

theorem head_matches_reachable:
  assumes "head_matches (STORE (boot rp t0 fs)) \<or> list_ex upsert_event evs"
  shows "head_matches (STORE (run rp evs (boot rp t0 fs)))"
  using shaped_boot assms by (rule head_matches_run)

theorem head_matches_reachable_witness:
  "head_matches (STORE (run repr_none [get_state, Post ''t1'' DumpFails upsert_a1, get_state]
                          (boot repr_none ''t0'' stale_history_file)))"
proof -
  have "list_ex upsert_event [get_state, Post ''t1'' DumpFails upsert_a1, get_state]"
    by (simp add: accepted_upsert_a1)
  then have "head_matches (STORE (boot repr_none ''t0'' stale_history_file)) \<or>
        list_ex upsert_event [get_state, Post ''t1'' DumpFails upsert_a1, get_state]"
    by (rule disjI2)
  then show ?thesis by (rule head_matches_reachable)
qed



section \<open>Normalisation\<close>

lemma well_formed_snapshot: "well_formed (snapshot r u st h) \<longleftrightarrow> u \<noteq> [] \<and> length h \<le> 200"
  by (auto simp: well_formed_def snapshot_def canonical_keys_def)

lemma py_int_or_int: "py_int (py_or (JInt r) (JInt 0)) = Inr r"
  by (simp add: py_or_def)

lemma normalize_store_well_formed_input:
  assumes "map_of s ''rev'' = Some (JInt r)" and "map_of s ''updated_at'' = Some (JStr u)"
    and "u \<noteq> []" and "map_of s ''state'' = Some (JObj d)"
    and "map_of s ''history'' = Some (JArr h)" and "length h \<le> 200"
  shows "normalize_store rp now (JObj s) = Inr (snapshot r u d h)"
  using assms by (simp add: normalize_store_def dict_get_def py_int_or_int py_str_def snapshot_def)

lemma map_of_snapshot_eq:
  assumes "set (map fst s) = set canonical_keys"
    and "map_of s ''rev'' = Some (JInt r)" and "map_of s ''updated_at'' = Some (JStr u)"
    and "map_of s ''state'' = Some (JObj d)" and "map_of s ''history'' = Some (JArr h)"
  shows "map_of (snapshot r u d h) = map_of s"
proof
  fix k
  show "map_of (snapshot r u d h) k = map_of s k"
  proof (cases "k \<in> set canonical_keys")
    case True
    then show ?thesis using assms(2-5) by (auto simp: canonical_keys_def snapshot_def)
  next
    case False
    then have "map_of s k = None" using assms(1) by (simp add: map_of_eq_None_iff)
    moreover from False have "map_of (snapshot r u d h) k = None"
      by (simp add: canonical_keys_def snapshot_def)
    ultimately show ?thesis by simp
  qed
qed

lemma canonical_order_snapshot:
  assumes "map fst s = canonical_keys"
    and "map_of s ''rev'' = Some a" and "map_of s ''updated_at'' = Some b"
    and "map_of s ''state'' = Some c" and "map_of s ''history'' = Some e"
  shows "s = [(''rev'', a), (''updated_at'', b), (''state'', c), (''history'', e)]"
  using assms by (auto simp: canonical_keys_def map_eq_Cons_conv)

text \<open>
  Claim C8. Normalising a well-formed snapshot (integer revision, non-empty timestamp
  string, mapping as document, history a list of at most 200 entries) returns, without
  raising, a well-formed snapshot with the same fields and values: an equal dict. When
  the keys come in the order in which the store writes them, the result is the same
  association list.
\<close>
theorem normalize_store_idempotent:
  assumes "well_formed s"
  shows "\<exists>s'. normalize_store rp now (JObj s) = Inr s' \<and> map_of s' = map_of s \<and>
              well_formed s' \<and> (map fst s = canonical_keys \<longrightarrow> s' = s)"
proof -
  from assms obtain r u d h where
    keys: "set (map fst s) = set canonical_keys" and
    r: "map_of s ''rev'' = Some (JInt r)" and u: "map_of s ''updated_at'' = Some (JStr u)" and
    ne: "u \<noteq> []" and d: "map_of s ''state'' = Some (JObj d)" and
    h: "map_of s ''history'' = Some (JArr h)" and len: "length h \<le> 200"
    by (auto simp: well_formed_def split: option.splits json.splits)
  have 1: "normalize_store rp now (JObj s) = Inr (snapshot r u d h)"
    by (rule normalize_store_well_formed_input [OF r u ne d h len])
  have 2: "map_of (snapshot r u d h) = map_of s"
    by (rule map_of_snapshot_eq [OF keys r u d h])
  have 3: "well_formed (snapshot r u d h)"
    by (simp add: well_formed_snapshot ne len)
  have 4: "map fst s = canonical_keys \<longrightarrow> snapshot r u d h = s"
    using canonical_order_snapshot [OF _ r u d h] by (auto simp: snapshot_def)
  from 1 2 3 4 show ?thesis by blast
qed

theorem normalize_store_idempotent_witness:
  "\<exists>s'. normalize_store repr_none ''t9'' (JObj reordered_snapshot) = Inr s' \<and>
        map_of s' = map_of reordered_snapshot \<and> well_formed s'"
proof -
  have wf: "well_formed reordered_snapshot"
    by (simp add: well_formed_def reordered_snapshot_def canonical_keys_def) auto
  from normalize_store_idempotent [OF wf, of repr_none "''t9''"] show ?thesis by blast
qed

text \<open>
  Claim C10. A store returned by \<^verbatim>\<open>_normalize_store\<close> has exactly the four keys
  \<^verbatim>\<open>rev\<close>, \<^verbatim>\<open>updated_at\<close>, \<^verbatim>\<open>state\<close>, \<^verbatim>\<open>history\<close>: other fields of the input are
  dropped. So has the store that \<^verbatim>\<open>_read_store\<close> loads and every store the server
  reaches from it, which is what is persisted and served.
\<close>
theorem normalize_store_keys:
  "(\<forall>s. normalize_store rp now raw = Inr s \<longrightarrow> map fst s = canonical_keys) \<and>
   map fst (read_store rp now fs) = canonical_keys \<and>
   map fst (STORE (run rp evs (boot rp now fs))) = canonical_keys"
proof -
  have 1: "\<forall>s. normalize_store rp now raw = Inr s \<longrightarrow> map fst s = canonical_keys"
    using normalize_store_shape [of rp now raw] by (auto simp: keys_snapshot)
  have 2: "map fst (read_store rp now fs) = canonical_keys"
    using read_store_shape [of rp now fs] by (auto simp: keys_snapshot)
  have 3: "map fst (STORE (run rp evs (boot rp now fs))) = canonical_keys"
    using shaped_reachable [of rp evs now fs] by (auto simp: shaped_def keys_snapshot)
  from 1 2 3 show ?thesis by blast
qed

theorem normalize_store_keys_witness:
  "normalize_store repr_none ''t0'' extra_field_value = Inr (snapshot 2 ''t0'' [] []) \<and>
   map fst (snapshot 2 ''t0'' [] []) = canonical_keys"
proof -
  have e: "normalize_store repr_none ''t0'' extra_field_value = Inr (snapshot 2 ''t0'' [] [])"
    by (simp add: normalize_store_def extra_field_value_def dict_get_def py_or_def py_str_def
        snapshot_def)
  from normalize_store_keys [of repr_none "''t0''" extra_field_value no_files "[]"] e
  show ?thesis by simp
qed

text \<open>
  Claim C5: \<^verbatim>\<open>_normalize_store\<close> never raises; on a mapping whose \<^verbatim>\<open>rev\<close> is invalid it
  returns a well-formed snapshot with revision 0. The code at such inputs: on a mapping
  with the revision \<^verbatim>\<open>"abc"\<close> and the document \<^verbatim>\<open>{"a": 1}\<close> it raises \<^verbatim>\<open>ValueError\<close>, on
  one with the revision \<^verbatim>\<open>[1]\<close> it raises \<^verbatim>\<open>TypeError\<close>, and \<^verbatim>\<open>_read_store\<close>, which catches
  the exception, loads the default store from the first: revision 0, but the document
  of the file is gone.
\<close>

theorem normalize_store_raises_on_invalid_rev:
  "normalize_store repr_none ''t0'' bad_rev_value = Inl ValueError \<and>
   normalize_store repr_none ''t0'' list_rev_value = Inl TypeError \<and>
   read_store repr_none ''t0'' bad_rev_file = default_store ''t0'' \<and>
   dict_get (read_store repr_none ''t0'' bad_rev_file) ''state'' JNull = JObj []"
proof -
  have 1: "normalize_store repr_none ''t0'' bad_rev_value = Inl ValueError"
    by (simp add: normalize_store_def bad_rev_value_def dict_get_def py_or_def int_of_str_eval)
  have 2: "normalize_store repr_none ''t0'' list_rev_value = Inl TypeError"
    by (simp add: normalize_store_def list_rev_value_def dict_get_def py_or_def)
  have 3: "read_store repr_none ''t0'' bad_rev_file = default_store ''t0''"
    by (simp add: read_store_def bad_rev_file_def 1)
  have 4: "dict_get (default_store ''t0'') ''state'' JNull = JObj []"
    by (simp add: default_store_def snapshot_get)
  from 1 2 3 4 show ?thesis by simp
qed

text \<open>
  Where the code does what the claim says: a returned store is well-formed, a missing
  or false \<^verbatim>\<open>rev\<close> gives revision 0, a \<^verbatim>\<open>rev\<close> that \<^verbatim>\<open>int\<close> accepts gives that integer, and
  loading always returns a well-formed store. It raises exactly on a mapping whose
  \<^verbatim>\<open>rev\<close> is a true value that \<^verbatim>\<open>int\<close> rejects, with the exception of \<^verbatim>\<open>int\<close>.
\<close>

lemma normalize_store_Inr_well_formed:
  assumes "now \<noteq> []" and "\<forall>v. rp v \<noteq> []" and "normalize_store rp now raw = Inr s"
  shows "well_formed s"
proof (cases raw)
  case (JObj d)
  from assms(3) obtain rv where
    s: "s = snapshot rv
          (if py_str rp (dict_get d ''updated_at'' (JStr [])) = [] then now
           else py_str rp (dict_get d ''updated_at'' (JStr [])))
          (case dict_get d ''state'' (JObj []) of JObj st \<Rightarrow> st | _ \<Rightarrow> [])
          (take 200 (case dict_get d ''history'' (JArr []) of JArr h \<Rightarrow> h | _ \<Rightarrow> []))"
    unfolding JObj normalize_store_def snapshot_def
    by (auto simp: Let_def split: sum.splits json.splits)
  show ?thesis unfolding s well_formed_snapshot using assms(1) by simp
qed (use assms in \<open>auto simp: normalize_store_def default_store_snapshot well_formed_snapshot\<close>)

lemma normalize_store_Inl_iff:
  "normalize_store rp now raw = Inl e \<longleftrightarrow>
     (\<exists>d. raw = JObj d \<and> py_truthy (dict_get d ''rev'' (JInt 0)) \<and>
          py_int (dict_get d ''rev'' (JInt 0)) = Inl e)"
proof (cases raw)
  case (JObj d)
  show ?thesis
    unfolding JObj normalize_store_def
    by (auto simp: Let_def py_or_def split: sum.splits)
qed (simp_all add: normalize_store_def)

lemma falsy_int_zero: "\<not> py_truthy v \<Longrightarrow> py_int v = Inr r \<Longrightarrow> r = 0"
proof (cases v)
  case (JFloat f)
  assume "\<not> py_truthy v" and "py_int v = Inr r"
  with JFloat show ?thesis by (cases f) auto
next
  case (JStr t)
  assume "\<not> py_truthy v" and "py_int v = Inr r"
  with JStr show ?thesis by (simp add: py_int_of_str_def strip_def)
qed (auto split: if_splits)

lemma normalize_store_falsy_rev:
  assumes "\<not> py_truthy (dict_get d ''rev'' (JInt 0))"
  shows "\<exists>s. normalize_store rp now (JObj d) = Inr s \<and> store_rev s = JInt 0"
  using assms by (simp add: normalize_store_def py_or_def Let_def store_rev_def snapshot_get)

lemma normalize_store_int_rev:
  assumes "py_int (dict_get d ''rev'' (JInt 0)) = Inr r"
  shows "\<exists>s. normalize_store rp now (JObj d) = Inr s \<and> store_rev s = JInt r"
proof (cases "py_truthy (dict_get d ''rev'' (JInt 0))")
  case True
  with assms show ?thesis
    by (simp add: normalize_store_def py_or_def Let_def store_rev_def snapshot_get)
next
  case False
  then have "r = 0" using assms falsy_int_zero by blast
  with False show ?thesis using normalize_store_falsy_rev by blast
qed

lemma read_store_well_formed:
  assumes "now \<noteq> []" and "\<forall>v. rp v \<noteq> []"
  shows "well_formed (read_store rp now fs)"
proof -
  consider "read_store rp now fs = default_store now"
    | raw where "normalize_store rp now raw = Inr (read_store rp now fs)"
    using read_store_cases [of rp now fs] by blast
  then show ?thesis
  proof cases
    case 1
    then show ?thesis using assms(1) by (simp add: default_store_snapshot well_formed_snapshot)
  next
    case 2
    then show ?thesis by (rule normalize_store_Inr_well_formed [OF assms])
  qed
qed

end
